theory Spec2Isabelle
  imports Main "HOL-Library.Word"
begin

unbundle bit_operations_syntax

section \<open>Data of the C component\<close>

text \<open>
  The component is two C functions, \<^verbatim>\<open>cmp\<close> and \<^verbatim>\<open>fts_cmp_open\<close> (source.c).
  Everything else they touch belongs to the platform: \<^verbatim>\<open>fts_open\<close> and
  \<^verbatim>\<open>strlen\<close> of libc, and \<^verbatim>\<open>CFStringCreateWithCString\<close>,
  \<^verbatim>\<open>CFStringCompareWithOptionsAndLocale\<close> and \<^verbatim>\<open>CFRelease\<close> of CoreFoundation.
  The two functions are embedded as they are written; the platform routines are parameters
  of the embedding (the records \<open>CoreFoundation\<close> and the argument \<open>fts_open\<close>), so that
  a statement proved for every value of the parameter holds whatever the platform does.
\<close>

type_synonym byte = "8 word"

text \<open>A C string is the list of the bytes stored at its address; it ends before the first
  zero byte (or at the end of the list, where the terminator then stands).\<close>

type_synonym cstring = "byte list"

text \<open>A CFString is a sequence of UTF-16 code units; a \<^verbatim>\<open>CFStringRef\<close> may be NULL.\<close>

type_synonym UniChar = nat
type_synonym CFStringRef = "UniChar list option"
type_synonym CFLocale = string
type_synonym CFLocaleRef = "CFLocale option"

record CFRange =
  location :: int
  length_CFRange :: int

datatype CFComparisonResult = kCFCompareLessThan | kCFCompareEqualTo | kCFCompareGreaterThan

text \<open>The fields of \<^verbatim>\<open>FTSENT\<close> (fts.h) that an entry carries beside its name.\<close>

record FTSENT =
  fts_path :: cstring
  fts_name :: cstring
  fts_info :: int
  fts_level :: int
  fts_errno :: int

text \<open>What C leaves undefined is a value of the model: using a NULL string reference, and
  handing the comparison a range that is not inside the first string.\<close>

datatype fault = NullReference | RangeOutOfBounds

subsection \<open>Constants of CFString.h\<close>

definition kCFStringEncodingUTF8 :: nat where
  "kCFStringEncodingUTF8 = 0x08000100"

definition kCFCompareLocalized :: nat where
  "kCFCompareLocalized = 32"

definition kCFCompareNumerically :: nat where
  "kCFCompareNumerically = 64"

definition kCFCompareWidthInsensitive :: nat where
  "kCFCompareWidthInsensitive = 256"

section \<open>The platform, as a parameter\<close>

text \<open>
  CoreFoundation is not part of the repository. Its three behaviours that \<^verbatim>\<open>cmp\<close>
  relies on are fields of a record: how bytes in a given encoding become a string (NULL
  when they cannot), which locale the process runs in, and how two strings compare under a
  locale and a set of option flags.
\<close>

record CoreFoundation =
  string_of_bytes :: "nat \<Rightarrow> byte list \<Rightarrow> UniChar list option"
  process_locale :: CFLocale
  compare_strings :: "CFLocaleRef \<Rightarrow> nat \<Rightarrow> UniChar list \<Rightarrow> UniChar list \<Rightarrow> CFComparisonResult"

definition c_str :: "cstring \<Rightarrow> byte list" where
  "c_str s = takeWhile (\<lambda>b. b \<noteq> 0) s"

definition strlen :: "cstring \<Rightarrow> nat" where
  "strlen s = length (c_str s)"

definition CFStringCreateWithCString :: "CoreFoundation \<Rightarrow> cstring \<Rightarrow> nat \<Rightarrow> CFStringRef" where
  "CFStringCreateWithCString CF cStr encoding = string_of_bytes CF encoding (c_str cStr)"

definition CFRangeMake :: "int \<Rightarrow> int \<Rightarrow> CFRange" where
  "CFRangeMake loc len = \<lparr>location = loc, length_CFRange = len\<rparr>"

text \<open>The locale a comparison runs under: the one passed, or the process's own when none is
  passed and the flags ask for a localized comparison.\<close>

definition effective_locale :: "CoreFoundation \<Rightarrow> nat \<Rightarrow> CFLocaleRef \<Rightarrow> CFLocaleRef" where
  "effective_locale CF compareOptions locale =
     (case locale of
        Some loc \<Rightarrow> Some loc
      | None \<Rightarrow>
          if compareOptions AND kCFCompareLocalized = 0 then None
          else Some (process_locale CF))"

text \<open>The comparison routine's contract: both references are strings, and
  \<open>rangeToCompare\<close> lies inside the first one; the characters of that range are compared
  with the whole second string.\<close>

definition CFStringCompareWithOptionsAndLocale ::
  "CoreFoundation \<Rightarrow> CFStringRef \<Rightarrow> CFStringRef \<Rightarrow> CFRange \<Rightarrow> nat \<Rightarrow> CFLocaleRef
     \<Rightarrow> fault + CFComparisonResult" where
  "CFStringCompareWithOptionsAndLocale CF theString1 theString2 rangeToCompare compareOptions locale =
     (case theString1 of
        None \<Rightarrow> Inl NullReference
      | Some s1 \<Rightarrow>
          (case theString2 of
             None \<Rightarrow> Inl NullReference
           | Some s2 \<Rightarrow>
               if 0 \<le> location rangeToCompare \<and> 0 \<le> length_CFRange rangeToCompare
                  \<and> location rangeToCompare + length_CFRange rangeToCompare \<le> int (length s1)
               then Inr (compare_strings CF (effective_locale CF compareOptions locale) compareOptions
                           (take (nat (length_CFRange rangeToCompare))
                              (drop (nat (location rangeToCompare)) s1))
                           s2)
               else Inl RangeOutOfBounds))"

definition CFRelease :: "CFStringRef \<Rightarrow> fault + unit" where
  "CFRelease cf = (case cf of None \<Rightarrow> Inl NullReference | Some _ \<Rightarrow> Inr ())"

text \<open>The cast \<^verbatim>\<open>(int)\<close> of a \<^verbatim>\<open>CFComparisonResult\<close>.\<close>

fun int_of_result :: "CFComparisonResult \<Rightarrow> int" where
  "int_of_result kCFCompareLessThan = -1"
| "int_of_result kCFCompareEqualTo = 0"
| "int_of_result kCFCompareGreaterThan = 1"

section \<open>The two functions of source.c\<close>

text \<open>
  \<^verbatim>\<open>
  int cmp(const FTSENT **l, const FTSENT **r) {
      char* lhs = (char*) (*l)->fts_name;
      char* rhs = (char*) (*r)->fts_name;
      CFStringRef lhsString = CFStringCreateWithCString(NULL, lhs, kCFStringEncodingUTF8);
      CFStringRef rhsString = CFStringCreateWithCString(NULL, rhs, kCFStringEncodingUTF8);
      int returnValue = (int) CFStringCompareWithOptionsAndLocale(lhsString, rhsString,
          CFRangeMake(0, strlen(lhs)), kCFCompareNumerically | kCFCompareWidthInsensitive, nil);
      CFRelease(lhsString);
      CFRelease(rhsString);
      return returnValue;
  }
  \<close>
\<close>

definition cmp :: "CoreFoundation \<Rightarrow> FTSENT \<Rightarrow> FTSENT \<Rightarrow> fault + int" where
  "cmp CF l r =
     (let lhs = fts_name l;
          rhs = fts_name r;
          lhsString = CFStringCreateWithCString CF lhs kCFStringEncodingUTF8;
          rhsString = CFStringCreateWithCString CF rhs kCFStringEncodingUTF8
      in case CFStringCompareWithOptionsAndLocale CF lhsString rhsString
                (CFRangeMake 0 (int (strlen lhs)))
                (kCFCompareNumerically OR kCFCompareWidthInsensitive) None of
           Inl f \<Rightarrow> Inl f
         | Inr res \<Rightarrow>
             (let returnValue = int_of_result res
              in case CFRelease lhsString of
                   Inl f \<Rightarrow> Inl f
                 | Inr _ \<Rightarrow>
                     (case CFRelease rhsString of
                        Inl f \<Rightarrow> Inl f
                      | Inr _ \<Rightarrow> Inr returnValue)))"

text \<open>
  \<^verbatim>\<open>
  FTS* fts_cmp_open(char * const * path, int options) {
      return fts_open(path, options, cmp);
  }
  \<close>
  \<^verbatim>\<open>fts_open\<close> is libc's: it takes the root paths, the options and a comparison callback
  (which may be NULL), works on the file system \<open>'w\<close>, and returns a handle \<open>'h\<close> or NULL
  with \<^verbatim>\<open>errno\<close> set, here \<open>Inl errno\<close>.
\<close>

type_synonym compar = "FTSENT \<Rightarrow> FTSENT \<Rightarrow> fault + int"

type_synonym ('w, 'h) fts_open_fn =
  "cstring list \<Rightarrow> int \<Rightarrow> compar option \<Rightarrow> 'w \<Rightarrow> (nat + 'h) \<times> 'w"

definition fts_cmp_open ::
  "('w, 'h) fts_open_fn \<Rightarrow> CoreFoundation \<Rightarrow> cstring list \<Rightarrow> int \<Rightarrow> 'w \<Rightarrow> (nat + 'h) \<times> 'w" where
  "fts_cmp_open fts_open CF path options = fts_open path options (Some (cmp CF))"

section \<open>A reference platform\<close>

text \<open>
  The definitions of this section stand for the platform routines the repository calls but
  does not contain. They follow the words of the specification; each says which routine it
  stands for. They are used where a statement needs a concrete platform.
\<close>

subsection \<open>Decoding names\<close>

definition cont :: "byte \<Rightarrow> bool" where
  "cont b = (0x80 \<le> unat b \<and> unat b \<le> 0xBF)"

definition cbits :: "byte \<Rightarrow> nat" where
  "cbits b = unat b - 0x80"

text \<open>
  Modelled from the spec: the decoding step of \<^verbatim>\<open>CFStringCreateWithCString\<close>
  (CoreFoundation, absent from the repository) for \<^verbatim>\<open>kCFStringEncodingUTF8\<close>. The
  spec takes names as "assumed UTF-8", to be "decode[d] as text", and speaks of names whose
  decoding "is impossible (invalid encoding)". So: well-formed UTF-8 decodes to its UTF-16
  code units (a code point above U+FFFF to a surrogate pair), anything else to nothing.
\<close>

fun utf8_units :: "byte list \<Rightarrow> UniChar list option" where
  "utf8_units [] = Some []"
| "utf8_units (b0 # bs) =
     (let a = unat b0 in
      if a < 0x80 then map_option ((#) a) (utf8_units bs)
      else if 0xC2 \<le> a \<and> a \<le> 0xDF then
        (case bs of
           b1 # rest \<Rightarrow>
             if cont b1
             then map_option ((#) ((a - 0xC0) * 64 + cbits b1)) (utf8_units rest)
             else None
         | _ \<Rightarrow> None)
      else if 0xE0 \<le> a \<and> a \<le> 0xEF then
        (case bs of
           b1 # b2 # rest \<Rightarrow>
             if cont b1 \<and> cont b2
                \<and> (if a = 0xE0 then 0xA0 else 0x80) \<le> unat b1
                \<and> unat b1 \<le> (if a = 0xED then 0x9F else 0xBF)
             then map_option ((#) ((a - 0xE0) * 4096 + cbits b1 * 64 + cbits b2))
                    (utf8_units rest)
             else None
         | _ \<Rightarrow> None)
      else if 0xF0 \<le> a \<and> a \<le> 0xF4 then
        (case bs of
           b1 # b2 # b3 # rest \<Rightarrow>
             if cont b1 \<and> cont b2 \<and> cont b3
                \<and> (if a = 0xF0 then 0x90 else 0x80) \<le> unat b1
                \<and> unat b1 \<le> (if a = 0xF4 then 0x8F else 0xBF)
             then (let v = (a - 0xF0) * 262144 + cbits b1 * 4096 + cbits b2 * 64 + cbits b3
                           - 0x10000
                   in map_option (\<lambda>us. (0xD800 + v div 1024) # (0xDC00 + v mod 1024) # us)
                        (utf8_units rest))
             else None
         | _ \<Rightarrow> None)
      else None)"

definition decode_name :: "nat \<Rightarrow> byte list \<Rightarrow> UniChar list option" where
  "decode_name encoding bs = (if encoding = kCFStringEncodingUTF8 then utf8_units bs else None)"

subsection \<open>Natural comparison\<close>

text \<open>
  Modelled from the spec: the comparison inside \<^verbatim>\<open>CFStringCompareWithOptionsAndLocale\<close>
  (CoreFoundation, absent from the repository), following section 4.1 of the specification.

  "Full-width/half-width character variants are treated as equivalent": the full-width
  forms U+FF01 to U+FF5E stand for the characters U+0021 to U+007E, and the ideographic
  space U+3000 for the space.
\<close>

definition fold_width :: "UniChar \<Rightarrow> UniChar" where
  "fold_width c =
     (if 0xFF01 \<le> c \<and> c \<le> 0xFF5E then c - 0xFEE0
      else if c = 0x3000 then 0x20
      else c)"

definition is_digit :: "UniChar \<Rightarrow> bool" where
  "is_digit c = (0x30 \<le> c \<and> c \<le> 0x39)"

text \<open>
  Modelled from the spec: the splitting step of that comparison. "Split each name into
  alternating non-digit/digit runs": a name is a list of pairs, a run of non-digits and the
  run of digits that follows it (either may be empty, at the start and at the end of the
  name).
\<close>

type_synonym run = "UniChar list \<times> UniChar list"

fun add_char :: "UniChar \<Rightarrow> run list \<Rightarrow> run list" where
  "add_char c [] = (if is_digit c then [([], [c])] else [([c], [])])"
| "add_char c ((t, d) # rs) =
     (if is_digit c
      then (if t = [] then ([], c # d) # rs else ([], [c]) # (t, d) # rs)
      else (c # t, d) # rs)"

definition split_runs :: "UniChar list \<Rightarrow> run list" where
  "split_runs s = foldr add_char s []"

definition compare_nat :: "nat \<Rightarrow> nat \<Rightarrow> CFComparisonResult" where
  "compare_nat m n =
     (if m < n then kCFCompareLessThan
      else if n < m then kCFCompareGreaterThan
      else kCFCompareEqualTo)"

text \<open>Modelled from the spec: the order of text runs in that comparison. "Compare non-digit
  runs by literal code-point order."\<close>

fun compare_text :: "UniChar list \<Rightarrow> UniChar list \<Rightarrow> CFComparisonResult" where
  "compare_text [] [] = kCFCompareEqualTo"
| "compare_text [] (b # bs) = kCFCompareLessThan"
| "compare_text (a # as) [] = kCFCompareGreaterThan"
| "compare_text (a # as) (b # bs) =
     (if a < b then kCFCompareLessThan
      else if b < a then kCFCompareGreaterThan
      else compare_text as bs)"

text \<open>
  Modelled from the spec: the order of digit runs in that comparison. "Compare digit runs
  by parsed integer value (with a tie-break on [...] original textual length if integer
  values are equal)", and, so that no run can overflow, "by string length first (longer
  numeric run wins) then lexicographically": the runs are compared as numerals, without
  their leading zeros, and never turned into an integer.
\<close>

definition significant :: "UniChar list \<Rightarrow> UniChar list" where
  "significant d = dropWhile (\<lambda>c. c = 0x30) d"

definition compare_digits :: "UniChar list \<Rightarrow> UniChar list \<Rightarrow> CFComparisonResult" where
  "compare_digits d1 d2 =
     (case compare_nat (length (significant d1)) (length (significant d2)) of
        kCFCompareEqualTo \<Rightarrow>
          (case compare_text (significant d1) (significant d2) of
             kCFCompareEqualTo \<Rightarrow> compare_nat (length d1) (length d2)
           | res \<Rightarrow> res)
      | res \<Rightarrow> res)"

text \<open>Modelled from the spec: the order of names in that comparison. "Concatenate run
  comparisons left to right, the first non-zero result deciding."\<close>

fun compare_runs :: "run list \<Rightarrow> run list \<Rightarrow> CFComparisonResult" where
  "compare_runs [] [] = kCFCompareEqualTo"
| "compare_runs [] (y # ys) = kCFCompareLessThan"
| "compare_runs (x # xs) [] = kCFCompareGreaterThan"
| "compare_runs ((t1, d1) # xs) ((t2, d2) # ys) =
     (case compare_text t1 t2 of
        kCFCompareEqualTo \<Rightarrow>
          (case compare_digits d1 d2 of
             kCFCompareEqualTo \<Rightarrow> compare_runs xs ys
           | res \<Rightarrow> res)
      | res \<Rightarrow> res)"

text \<open>Modelled from the spec: the comparison inside
  \<^verbatim>\<open>CFStringCompareWithOptionsAndLocale\<close> as a whole. It is "locale-free"; the option
  flags \<^verbatim>\<open>kCFCompareWidthInsensitive\<close> and \<^verbatim>\<open>kCFCompareNumerically\<close> switch its two
  modes on.\<close>

definition natural_compare ::
  "CFLocaleRef \<Rightarrow> nat \<Rightarrow> UniChar list \<Rightarrow> UniChar list \<Rightarrow> CFComparisonResult" where
  "natural_compare locale compareOptions s1 s2 =
     (let a = (if compareOptions AND kCFCompareWidthInsensitive = 0 then s1 else map fold_width s1);
          b = (if compareOptions AND kCFCompareWidthInsensitive = 0 then s2 else map fold_width s2)
      in if compareOptions AND kCFCompareNumerically = 0 then compare_text a b
         else compare_runs (split_runs a) (split_runs b))"

definition reference_CF :: "CFLocale \<Rightarrow> CoreFoundation" where
  "reference_CF loc =
     \<lparr>string_of_bytes = decode_name, process_locale = loc, compare_strings = natural_compare\<rparr>"

text \<open>The value of a digit run, to state what the comparison of numerals achieves.\<close>

definition digit_value :: "UniChar list \<Rightarrow> nat" where
  "digit_value d = foldl (\<lambda>n c. 10 * n + (c - 0x30)) 0 d"

subsection \<open>Opening a traversal\<close>






subsection \<open>Concrete entries\<close>

definition bytes_of :: "string \<Rightarrow> byte list" where
  "bytes_of s = map of_char s"

definition entry :: "cstring \<Rightarrow> FTSENT" where
  "entry name = \<lparr>fts_path = name, fts_name = name, fts_info = 8, fts_level = 1, fts_errno = 0\<rparr>"

subsection \<open>Shapes of names\<close>

text \<open>A name of plain ASCII bytes: each byte is its own character, so the byte length of
  the name is the length of its string.\<close>

definition ascii_name :: "cstring \<Rightarrow> bool" where
  "ascii_name s = list_all (\<lambda>b. 0 < unat b \<and> unat b < 0x80) s"

definition units_of :: "cstring \<Rightarrow> UniChar list" where
  "units_of s = map unat s"

definition digit_run :: "UniChar list \<Rightarrow> bool" where
  "digit_run d = (d \<noteq> [] \<and> list_all is_digit d)"

definition ends_without_digit :: "UniChar list \<Rightarrow> bool" where
  "ends_without_digit s = (case rev s of [] \<Rightarrow> True | c # cs \<Rightarrow> \<not> is_digit c)"

definition starts_without_digit :: "UniChar list \<Rightarrow> bool" where
  "starts_without_digit s = (case s of [] \<Rightarrow> True | c # cs \<Rightarrow> \<not> is_digit c)"

text \<open>\<open>splits_at_run name p d s\<close>: the ASCII name is \<open>p\<close>, then the whole digit run \<open>d\<close>,
  then \<open>s\<close> (no digit stands just before or just after \<open>d\<close>).\<close>

definition splits_at_run :: "cstring \<Rightarrow> cstring \<Rightarrow> cstring \<Rightarrow> cstring \<Rightarrow> bool" where
  "splits_at_run name p d s =
     (name = p @ d @ s \<and> ascii_name name \<and> ends_without_digit (units_of p)
      \<and> digit_run (units_of d) \<and> starts_without_digit (units_of s))"


text \<open>The name "file1" written with full-width letters and digit (U+FF46 U+FF49 U+FF4C
  U+FF45 U+FF11), in UTF-8, and the name of one character U+00E9.\<close>

definition fullwidth_file1 :: cstring where
  "fullwidth_file1 =
     [0xEF, 0xBD, 0x86, 0xEF, 0xBD, 0x89, 0xEF, 0xBD, 0x8C, 0xEF, 0xBD, 0x85, 0xEF, 0xBC, 0x91]"

definition e_acute :: cstring where
  "e_acute = [0xC3, 0xA9]"

section \<open>What \<open>cmp\<close> computes\<close>

lemma cmp_options: "kCFCompareNumerically OR kCFCompareWidthInsensitive = 320"
  by (simp add: kCFCompareNumerically_def kCFCompareWidthInsensitive_def)

lemma cmp_not_localized:
  "effective_locale CF (kCFCompareNumerically OR kCFCompareWidthInsensitive) None = None"
  by (simp add: cmp_options effective_locale_def kCFCompareLocalized_def)

text \<open>The three outcomes of \<open>cmp\<close>: a name that does not decode leaves a NULL reference
  that is used unchecked; a byte length beyond the length of the left string is a range
  outside it; otherwise the result of the platform's comparison is returned.\<close>

lemma cmp_unfold:
  "cmp CF l r =
     (case string_of_bytes CF kCFStringEncodingUTF8 (c_str (fts_name l)) of
        None \<Rightarrow> Inl NullReference
      | Some a \<Rightarrow>
          (case string_of_bytes CF kCFStringEncodingUTF8 (c_str (fts_name r)) of
             None \<Rightarrow> Inl NullReference
           | Some b \<Rightarrow>
               if strlen (fts_name l) \<le> length a
               then Inr (int_of_result
                      (compare_strings CF None (kCFCompareNumerically OR kCFCompareWidthInsensitive)
                         (take (strlen (fts_name l)) a) b))
               else Inl RangeOutOfBounds))"
  by (simp add: cmp_def Let_def CFStringCreateWithCString_def
      CFStringCompareWithOptionsAndLocale_def CFRangeMake_def CFRelease_def cmp_not_localized
      split: option.split)

section \<open>Opening a traversal\<close>

text \<open>
  C1. For every list of root paths and every options value, \<open>fts_cmp_open\<close> is
  \<open>fts_open\<close> on exactly those roots and those options with \<open>cmp\<close> as the comparison
  callback: the same result and the same effect on the file system.
\<close>

theorem fts_cmp_open_delegates:
  "fts_cmp_open fts_open CF path options w = fts_open path options (Some (cmp CF)) w"
  by (simp add: fts_cmp_open_def)






section \<open>The comparator, on every platform\<close>

text \<open>
  Where the call of the comparison is defined (both names decode, and the byte length of
  the left name is within its string), \<open>cmp\<close> returns a result, and that result is a
  function of the two names alone: entries with equal \<open>fts_name\<close> fields compare alike
  whatever their other fields are, and whatever locale the process runs in, since the
  comparison is called with no locale and without the flag that asks for the process's own.
\<close>

lemma cmp_defined_depends_on_names_only:
  assumes "fts_name l = fts_name l'" and "fts_name r = fts_name r'"
    and "string_of_bytes CF kCFStringEncodingUTF8 (c_str (fts_name l)) = Some a"
    and "string_of_bytes CF kCFStringEncodingUTF8 (c_str (fts_name r)) = Some b"
    and "strlen (fts_name l) \<le> length a"
  shows "\<exists>v. cmp (CF\<lparr>process_locale := loc\<rparr>) l r = Inr v
           \<and> cmp (CF\<lparr>process_locale := loc'\<rparr>) l' r' = Inr v"
  using assms by (simp add: cmp_unfold)

text \<open>
  C5, as the code has it. For every pair of names that the platform decodes, the left one
  no longer in bytes than its string is in characters (every ASCII name is so), \<open>cmp\<close>
  returns the three-way result of the platform's comparison and no error. There is no
  byte-wise fallback: when a name does not decode, \<open>cmp\<close> goes on with the NULL reference.
\<close>

theorem cmp_result_when_decodable:
  "(string_of_bytes CF kCFStringEncodingUTF8 (c_str (fts_name l)) = Some a
      \<and> string_of_bytes CF kCFStringEncodingUTF8 (c_str (fts_name r)) = Some b
      \<and> strlen (fts_name l) \<le> length a
    \<longrightarrow> cmp CF l r =
          Inr (int_of_result
                 (compare_strings CF None (kCFCompareNumerically OR kCFCompareWidthInsensitive)
                    (take (strlen (fts_name l)) a) b)))
   \<and> (string_of_bytes CF kCFStringEncodingUTF8 (c_str (fts_name l)) = None
    \<longrightarrow> cmp CF l r = Inl NullReference)
   \<and> (string_of_bytes CF kCFStringEncodingUTF8 (c_str (fts_name r)) = None
    \<longrightarrow> cmp CF l r = Inl NullReference)"
  by (simp add: cmp_unfold split: option.split)

theorem cmp_result_when_decodable_witness:
  "string_of_bytes (reference_CF ''C'') kCFStringEncodingUTF8 (c_str (fts_name (entry (bytes_of ''b''))))
     = Some [0x62]
   \<and> string_of_bytes (reference_CF ''C'') kCFStringEncodingUTF8 (c_str (fts_name (entry e_acute)))
     = Some [0xE9]
   \<and> strlen (fts_name (entry (bytes_of ''b''))) \<le> length [0x62 :: nat]
   \<and> cmp (reference_CF ''C'') (entry (bytes_of ''b'')) (entry e_acute) = Inr (- 1)
   \<and> string_of_bytes (reference_CF ''C'') kCFStringEncodingUTF8 (c_str (fts_name (entry [0xFF])))
     = None
   \<and> cmp (reference_CF ''C'') (entry [0xFF]) (entry (bytes_of ''b'')) = Inl NullReference
   \<and> cmp (reference_CF ''C'') (entry (bytes_of ''b'')) (entry [0xFF]) = Inl NullReference"
proof -
  have a: "string_of_bytes (reference_CF ''C'') kCFStringEncodingUTF8
             (c_str (fts_name (entry (bytes_of ''b'')))) = Some [0x62]"
    by (simp add: reference_CF_def decode_name_def entry_def bytes_of_def c_str_def)
  have b: "string_of_bytes (reference_CF ''C'') kCFStringEncodingUTF8
             (c_str (fts_name (entry e_acute))) = Some [0xE9]"
    by (simp add: reference_CF_def decode_name_def entry_def e_acute_def c_str_def cont_def
        cbits_def)
  have n: "strlen (fts_name (entry (bytes_of ''b''))) \<le> length [0x62 :: nat]"
    by (simp add: strlen_def entry_def bytes_of_def c_str_def)
  have u: "string_of_bytes (reference_CF ''C'') kCFStringEncodingUTF8
             (c_str (fts_name (entry [0xFF]))) = None"
    by (simp add: reference_CF_def decode_name_def entry_def c_str_def)
  have v: "compare_strings (reference_CF ''C'') None
             (kCFCompareNumerically OR kCFCompareWidthInsensitive)
             (take (strlen (fts_name (entry (bytes_of ''b'')))) [0x62]) [0xE9] = kCFCompareLessThan"
    by (simp add: reference_CF_def natural_compare_def cmp_options kCFCompareNumerically_def
        kCFCompareWidthInsensitive_def strlen_def entry_def bytes_of_def c_str_def
        split_runs_def is_digit_def fold_width_def)
  from cmp_result_when_decodable[of "reference_CF ''C''" "entry (bytes_of ''b'')" "[0x62]"
         "entry e_acute" "[0xE9]"]
       cmp_result_when_decodable[of "reference_CF ''C''" "entry [0xFF]" _ "entry (bytes_of ''b'')"]
       cmp_result_when_decodable[of "reference_CF ''C''" "entry (bytes_of ''b'')" _ "entry [0xFF]"]
       a b n u v
  show ?thesis by simp
qed

text \<open>C5 as stated fails: a name that is not UTF-8 makes \<open>cmp\<close> fail on the NULL reference,
  where the claim has it return the byte-wise order.\<close>

theorem cmp_undecodable_counterexample:
  "cmp (reference_CF ''C'') (entry [0xFF]) (entry (bytes_of ''a'')) = Inl NullReference"
  by (simp add: cmp_unfold reference_CF_def entry_def c_str_def decode_name_def)

subsection \<open>The range handed to the comparison\<close>

text \<open>
  C3 at the name pair of the specification. \<open>cmp\<close> passes \<open>strlen(lhs)\<close>, a count of
  bytes, as the length of the range of \<open>lhsString\<close>, which counts UTF-16 code units. The
  full-width "file1" is 15 bytes and 5 code units: the range is outside the string and the
  comparison is undefined, whatever the platform's comparison does inside a string. With
  the ASCII name on the left the range fits, and the two names compare equal on the
  reference platform.
\<close>

theorem cmp_full_width_left_name:
  "cmp (CF\<lparr>string_of_bytes := decode_name\<rparr>) (entry fullwidth_file1) (entry (bytes_of ''file1''))
     = Inl RangeOutOfBounds
   \<and> cmp (reference_CF loc) (entry (bytes_of ''file1'')) (entry fullwidth_file1) = Inr 0"
  by (simp add: cmp_unfold reference_CF_def entry_def c_str_def decode_name_def bytes_of_def
      strlen_def cont_def cbits_def fullwidth_file1_def natural_compare_def cmp_options
      kCFCompareNumerically_def kCFCompareWidthInsensitive_def split_runs_def is_digit_def
      fold_width_def compare_digits_def significant_def compare_nat_def)

text \<open>
  C4 at a name that is not ASCII. For the same reason a name of one two-byte character does
  not compare equal to itself: the range of two code units is outside the string of one.
\<close>

theorem cmp_non_ascii_name_with_itself:
  "cmp (CF\<lparr>string_of_bytes := decode_name\<rparr>) (entry e_acute) (entry e_acute)
     = Inl RangeOutOfBounds"
  by (simp add: cmp_unfold entry_def c_str_def decode_name_def strlen_def cont_def cbits_def
      e_acute_def)

text \<open>
  C2 at names that are not ASCII. The specification's pair "file2", "file10" is ordered as
  claimed on the reference platform. But digit runs are not compared by value in general:
  for the names U+00E9 "2" and U+00E9 "10", the left is 3 bytes and 2 code units, the range
  of 3 is outside the string, and the comparison is undefined whatever the platform's
  comparison does inside a string.
\<close>

theorem cmp_digit_run_after_non_ascii:
  "cmp (CF\<lparr>string_of_bytes := decode_name\<rparr>)
     (entry (e_acute @ bytes_of ''2'')) (entry (e_acute @ bytes_of ''10''))
     = Inl RangeOutOfBounds
   \<and> cmp (reference_CF loc) (entry (bytes_of ''file2'')) (entry (bytes_of ''file10''))
     = Inr (- 1)"
  by (simp add: cmp_unfold reference_CF_def entry_def c_str_def decode_name_def bytes_of_def
      strlen_def cont_def cbits_def e_acute_def natural_compare_def cmp_options
      kCFCompareNumerically_def kCFCompareWidthInsensitive_def split_runs_def is_digit_def
      fold_width_def compare_digits_def significant_def compare_nat_def)

text \<open>
  C10 at a left name that is not ASCII. For the names U+00E9 and U+00E9 "a" the range of 2
  reaches past the one character of the left string: what the comparison reads there is not
  part of either name, so the result is not determined by the names. The same holds for
  every process locale.
\<close>

theorem cmp_reads_past_left_name:
  "cmp (CF\<lparr>string_of_bytes := decode_name, process_locale := loc\<rparr>)
     (entry e_acute) (entry (e_acute @ bytes_of ''a''))
     = Inl RangeOutOfBounds"
  by (simp add: cmp_unfold entry_def c_str_def decode_name_def strlen_def cont_def cbits_def
      e_acute_def bytes_of_def)

section \<open>The comparator on the reference platform\<close>

subsection \<open>ASCII names\<close>

lemma ascii_c_str: "ascii_name s \<Longrightarrow> c_str s = s"
  by (induction s) (auto simp: ascii_name_def c_str_def)

lemma ascii_strlen: "ascii_name s \<Longrightarrow> strlen s = length s"
  by (simp add: strlen_def ascii_c_str)

lemma ascii_utf8_units: "ascii_name s \<Longrightarrow> utf8_units s = Some (units_of s)"
  by (induction s) (auto simp: ascii_name_def units_of_def)

lemma length_units_of: "length (units_of s) = length s"
  by (simp add: units_of_def)

lemma units_of_append: "units_of (a @ b) = units_of a @ units_of b"
  by (simp add: units_of_def)

lemma ascii_fold_width: "ascii_name s \<Longrightarrow> map fold_width (units_of s) = units_of s"
  by (induction s) (auto simp: ascii_name_def units_of_def fold_width_def)

lemma natural_compare_cmp_options:
  "natural_compare locale (kCFCompareNumerically OR kCFCompareWidthInsensitive) s1 s2
     = compare_runs (split_runs (map fold_width s1)) (split_runs (map fold_width s2))"
  by (simp add: natural_compare_def cmp_options kCFCompareNumerically_def
      kCFCompareWidthInsensitive_def)

lemma cmp_reference_ascii:
  assumes "ascii_name (fts_name l)" and "ascii_name (fts_name r)"
  shows "cmp (reference_CF loc) l r =
           Inr (int_of_result (compare_runs (split_runs (units_of (fts_name l)))
                                            (split_runs (units_of (fts_name r)))))"
  using assms
  by (simp add: cmp_unfold reference_CF_def decode_name_def ascii_c_str ascii_strlen
      ascii_utf8_units natural_compare_cmp_options ascii_fold_width length_units_of)

subsection \<open>Runs\<close>

lemma add_char_Cons: "add_char c (x # ys) = add_char c [x] @ ys"
  by (cases x) simp

lemma add_char_not_Nil: "add_char c rs \<noteq> []"
  by (cases rs) (auto split: if_splits)

lemma split_runs_Cons: "split_runs (c # s) = add_char c (split_runs s)"
  by (simp add: split_runs_def)

lemma split_runs_append: "split_runs (p @ s) = foldr add_char p (split_runs s)"
  by (simp add: split_runs_def)

lemma split_runs_not_Nil: "s \<noteq> [] \<Longrightarrow> split_runs s \<noteq> []"
  by (cases s) (simp_all add: split_runs_Cons add_char_not_Nil)

text \<open>A name that starts with a non-digit starts with a non-empty text run.\<close>

lemma split_runs_text_head:
  assumes "s \<noteq> []" and "starts_without_digit s"
  shows "\<exists>t d rs. split_runs s = (t, d) # rs \<and> t \<noteq> []"
proof -
  from assms obtain c s' where s: "s = c # s'" and c: "\<not> is_digit c"
    by (cases s) (auto simp: starts_without_digit_def)
  show ?thesis
  proof (cases "split_runs s'")
    case Nil
    with s c show ?thesis by (simp add: split_runs_Cons)
  next
    case (Cons x xs)
    with s c show ?thesis by (cases x) (simp add: split_runs_Cons)
  qed
qed

lemma digits_before_text:
  assumes "list_all is_digit d" and "d \<noteq> []"
    and "rs = [] \<or> (\<exists>t e rs'. rs = (t, e) # rs' \<and> t \<noteq> [])"
  shows "foldr add_char d rs = ([], d) # rs"
  using assms
proof (induction d)
  case Nil
  then show ?case by simp
next
  case (Cons c d)
  show ?case
  proof (cases "d = []")
    case True
    with Cons.prems show ?thesis by auto
  next
    case False
    with Cons have "foldr add_char d rs = ([], d) # rs" by simp
    with Cons.prems show ?thesis by simp
  qed
qed

lemma split_runs_digits_then:
  assumes "digit_run d" and "starts_without_digit s"
  shows "split_runs (d @ s) = ([], d) # split_runs s"
proof -
  have "split_runs s = [] \<or> (\<exists>t e rs'. split_runs s = (t, e) # rs' \<and> t \<noteq> [])"
  proof (cases "s = []")
    case True
    then show ?thesis by (simp add: split_runs_def)
  next
    case False
    with assms(2) show ?thesis using split_runs_text_head by blast
  qed
  with assms(1) show ?thesis
    by (simp add: split_runs_append digits_before_text digit_run_def)
qed

text \<open>What stands before a digit run, and does not end in a digit, leaves the run whole:
  it only adds runs in front and text to the run's own pair.\<close>

lemma prefix_keeps_digits:
  assumes "ends_without_digit p"
  shows "\<exists>pre t. (p \<noteq> [] \<longrightarrow> t \<noteq> [])
           \<and> (\<forall>d rs. foldr add_char p (([], d) # rs) = pre @ (t, d) # rs)"
  using assms
proof (induction p)
  case Nil
  then show ?case by (intro exI[of _ "[]"]) simp
next
  case (Cons c p)
  show ?case
  proof (cases "p = []")
    case True
    with Cons.prems have "\<not> is_digit c" by (simp add: ends_without_digit_def)
    then have "\<forall>d rs. foldr add_char (c # p) (([], d) # rs) = [] @ ([c], d) # rs"
      using True by simp
    then show ?thesis by blast
  next
    case False
    with Cons.prems have "ends_without_digit p"
      by (cases "rev p") (auto simp: ends_without_digit_def)
    with Cons.IH False obtain pre t where t: "t \<noteq> []"
      and eq: "\<And>d rs. foldr add_char p (([], d) # rs) = pre @ (t, d) # rs"
      by blast
    show ?thesis
    proof (cases pre)
      case Nil
      show ?thesis
      proof (cases "is_digit c")
        case True
        with Nil eq t
        have "\<forall>d rs. foldr add_char (c # p) (([], d) # rs) = [([], [c])] @ (t, d) # rs"
          by simp
        with t show ?thesis by blast
      next
        case notd: False
        with Nil eq
        have "\<forall>d rs. foldr add_char (c # p) (([], d) # rs) = [] @ (c # t, d) # rs"
          by simp
        then show ?thesis by blast
      qed
    next
      case (Cons x pre')
      have "foldr add_char (c # p) (([], d) # rs) = (add_char c [x] @ pre') @ (t, d) # rs"
        for d rs
      proof -
        have "foldr add_char (c # p) (([], d) # rs) = add_char c (x # (pre' @ (t, d) # rs))"
          by (simp add: eq Cons)
        also have "\<dots> = add_char c [x] @ (pre' @ (t, d) # rs)"
          by (rule add_char_Cons)
        finally show ?thesis by simp
      qed
      with t show ?thesis by blast
    qed
  qed
qed

lemma compare_nat_refl: "compare_nat n n = kCFCompareEqualTo"
  by (simp add: compare_nat_def)

lemma compare_text_refl: "compare_text s s = kCFCompareEqualTo"
  by (induction s) simp_all

lemma compare_digits_refl: "compare_digits d d = kCFCompareEqualTo"
  by (simp add: compare_digits_def compare_nat_refl compare_text_refl)

lemma compare_runs_common_prefix:
  "compare_runs (pre @ (t, d1) # r1) (pre @ (t, d2) # r2) =
     (case compare_digits d1 d2 of
        kCFCompareEqualTo \<Rightarrow> compare_runs r1 r2
      | res \<Rightarrow> res)"
proof (induction pre)
  case Nil
  show ?case by (simp add: compare_text_refl)
next
  case (Cons x pre)
  obtain t' d' where x: "x = (t', d')" by (cases x)
  have "compare_runs ((x # pre) @ (t, d1) # r1) ((x # pre) @ (t, d2) # r2)
          = compare_runs (pre @ (t, d1) # r1) (pre @ (t, d2) # r2)"
    by (simp add: x compare_text_refl compare_digits_refl)
  with Cons.IH show ?case by simp
qed

text \<open>Two names that agree up to a digit run are ordered by that run, and by what follows
  it only when the runs tie.\<close>

lemma compare_embedded_runs:
  assumes "ends_without_digit p" and "digit_run d1" and "digit_run d2"
    and "starts_without_digit s1" and "starts_without_digit s2"
  shows "compare_runs (split_runs (p @ d1 @ s1)) (split_runs (p @ d2 @ s2)) =
     (case compare_digits d1 d2 of
        kCFCompareEqualTo \<Rightarrow> compare_runs (split_runs s1) (split_runs s2)
      | res \<Rightarrow> res)"
proof -
  from prefix_keeps_digits[OF assms(1)] obtain pre t
    where eq: "\<And>d rs. foldr add_char p (([], d) # rs) = pre @ (t, d) # rs" by blast
  have "split_runs (p @ d1 @ s1) = pre @ (t, d1) # split_runs s1"
    using assms by (simp add: split_runs_append[of p] split_runs_digits_then eq)
  moreover have "split_runs (p @ d2 @ s2) = pre @ (t, d2) # split_runs s2"
    using assms by (simp add: split_runs_append[of p] split_runs_digits_then eq)
  ultimately show ?thesis by (simp add: compare_runs_common_prefix)
qed

lemma cmp_embedded_runs:
  assumes "splits_at_run (fts_name l) p d1 s1" and "splits_at_run (fts_name r) p d2 s2"
  shows "cmp (reference_CF loc) l r =
     Inr (int_of_result
       (case compare_digits (units_of d1) (units_of d2) of
          kCFCompareEqualTo \<Rightarrow> compare_runs (split_runs (units_of s1)) (split_runs (units_of s2))
        | res \<Rightarrow> res))"
proof -
  from assms have l: "fts_name l = p @ d1 @ s1" and r: "fts_name r = p @ d2 @ s2"
    and al: "ascii_name (fts_name l)" and ar: "ascii_name (fts_name r)"
    and shape: "ends_without_digit (units_of p)" "digit_run (units_of d1)"
      "digit_run (units_of d2)" "starts_without_digit (units_of s1)"
      "starts_without_digit (units_of s2)"
    unfolding splits_at_run_def by blast+
  have "cmp (reference_CF loc) l r =
          Inr (int_of_result (compare_runs (split_runs (units_of (p @ d1 @ s1)))
                                           (split_runs (units_of (p @ d2 @ s2)))))"
    using cmp_reference_ascii[OF al ar, of loc] by (simp add: l r)
  then show ?thesis
    by (simp add: units_of_append compare_embedded_runs[OF shape])
qed

subsection \<open>Numerals\<close>

lemma digit_value_foldl:
  "foldl (\<lambda>n c. 10 * n + (c - 0x30)) n d = n * 10 ^ length d + digit_value d"
proof (induction d arbitrary: n)
  case Nil
  show ?case by (simp add: digit_value_def)
next
  case (Cons c d)
  have "foldl (\<lambda>n c. 10 * n + (c - 0x30)) n (c # d)
          = (10 * n + (c - 0x30)) * 10 ^ length d + digit_value d"
    using Cons.IH[of "10 * n + (c - 0x30)"] by simp
  moreover have "digit_value (c # d) = (c - 0x30) * 10 ^ length d + digit_value d"
    using Cons.IH[of "c - 0x30"] by (simp add: digit_value_def)
  ultimately show ?case by (simp add: algebra_simps)
qed

lemma digit_value_Nil: "digit_value [] = 0"
  by (simp add: digit_value_def)

lemma digit_value_Cons: "digit_value (c # d) = (c - 0x30) * 10 ^ length d + digit_value d"
  using digit_value_foldl[of "c - 0x30" d] by (simp add: digit_value_def)

lemma digit_value_bound: "list_all is_digit d \<Longrightarrow> digit_value d < 10 ^ length d"
proof (induction d)
  case Nil
  show ?case by (simp add: digit_value_Nil)
next
  case (Cons c d)
  then have c: "c - 0x30 \<le> 9" and v: "digit_value d < 10 ^ length d"
    by (auto simp: is_digit_def)
  have "(c - 0x30) * 10 ^ length d + digit_value d < 9 * 10 ^ length d + 10 ^ length d"
    using c v by (meson add_le_less_mono mult_le_mono1)
  then show ?case by (simp add: digit_value_Cons)
qed

lemma significant_digits: "list_all is_digit d \<Longrightarrow> list_all is_digit (significant d)"
  by (induction d) (auto simp: significant_def)

lemma significant_value: "digit_value (significant d) = digit_value d"
  by (induction d) (auto simp: significant_def digit_value_Cons)

lemma significant_head: "significant d = c # cs \<Longrightarrow> c \<noteq> 0x30"
  using hd_dropWhile[of "\<lambda>c. c = 0x30" d] by (auto simp: significant_def)

lemma significant_lower_bound:
  assumes "list_all is_digit d" and "significant d = c # cs"
  shows "10 ^ length cs \<le> digit_value d"
proof -
  have "is_digit c" using significant_digits[OF assms(1)] assms(2) by simp
  then have "0x30 \<le> c" by (simp add: is_digit_def)
  with significant_head[OF assms(2)] have "1 \<le> c - 0x30" by arith
  then have "10 ^ length cs \<le> (c - 0x30) * 10 ^ length cs" by simp
  also have "\<dots> \<le> digit_value (c # cs)" by (simp add: digit_value_Cons)
  finally show ?thesis using assms(2) significant_value[of d] by simp
qed

text \<open>Without its leading zeros, the shorter numeral is the smaller number.\<close>

lemma shorter_numeral_smaller:
  assumes "list_all is_digit d1" and "list_all is_digit d2"
    and "length (significant d1) < length (significant d2)"
  shows "digit_value d1 < digit_value d2"
proof -
  from assms(3) obtain c cs where s2: "significant d2 = c # cs"
    by (cases "significant d2") auto
  have "digit_value d1 < 10 ^ length (significant d1)"
    using digit_value_bound[OF significant_digits[OF assms(1)]] by (simp add: significant_value)
  also have "\<dots> \<le> 10 ^ length cs"
    using assms(3) s2 by (simp add: power_increasing)
  also have "\<dots> \<le> digit_value d2"
    by (rule significant_lower_bound[OF assms(2) s2])
  finally show ?thesis .
qed

text \<open>Numerals of one length are ordered as numbers the way they are ordered as text.\<close>

lemma same_length_numerals:
  assumes "length a = length b" and "list_all is_digit a" and "list_all is_digit b"
  shows "(compare_text a b = kCFCompareLessThan \<longrightarrow> digit_value a < digit_value b)
       \<and> (compare_text a b = kCFCompareGreaterThan \<longrightarrow> digit_value b < digit_value a)
       \<and> (compare_text a b = kCFCompareEqualTo \<longrightarrow> a = b)"
  using assms
proof (induction a b rule: list_induct2)
  case Nil
  show ?case by simp
next
  case (Cons x xs y ys)
  from Cons.prems have ds: "list_all is_digit xs" "list_all is_digit ys"
    and dxy: "is_digit x" "is_digit y"
    by simp_all
  from dxy have dx: "0x30 \<le> x" and dy: "0x30 \<le> y"
    by (simp_all add: is_digit_def)
  from Cons.hyps have len: "length ys = length xs" by simp
  have bx: "digit_value xs < 10 ^ length xs" and by': "digit_value ys < 10 ^ length ys"
    using ds by (simp_all add: digit_value_bound)
  note IH = Cons.IH[OF ds]
  have lt: "digit_value (u # us) < digit_value (v # vs)"
    if "u < v" "0x30 \<le> u" "digit_value us < 10 ^ length us" "length vs = length us"
    for u v us vs
  proof -
    have "(u - 0x30) + 1 \<le> v - 0x30" using that by simp
    then have "((u - 0x30) + 1) * 10 ^ length us \<le> (v - 0x30) * 10 ^ length us"
      by (rule mult_le_mono1)
    then have "(u - 0x30) * 10 ^ length us + digit_value us < (v - 0x30) * 10 ^ length us"
      using that(3) by (simp add: algebra_simps)
    then show ?thesis using that(4) by (simp add: digit_value_Cons)
  qed
  show ?case
  proof (cases "x < y")
    case True
    from lt[OF True dx bx len] True show ?thesis by simp
  next
    case False
    show ?thesis
    proof (cases "y < x")
      case True
      from lt[OF True dy by' Cons.hyps] True \<open>\<not> x < y\<close> show ?thesis by simp
    next
      case False
      with \<open>\<not> x < y\<close> have "x = y" by simp
      with IH Cons.hyps show ?thesis by (simp add: digit_value_Cons)
    qed
  qed
qed

text \<open>The comparison of numerals is the comparison of the numbers they write.\<close>

lemma compare_digits_by_value:
  assumes "list_all is_digit d1" and "list_all is_digit d2"
  shows "(digit_value d1 < digit_value d2 \<longrightarrow> compare_digits d1 d2 = kCFCompareLessThan)
       \<and> (digit_value d2 < digit_value d1 \<longrightarrow> compare_digits d1 d2 = kCFCompareGreaterThan)"
proof -
  let ?a = "significant d1" and ?b = "significant d2"
  consider (shorter) "length ?a < length ?b" | (longer) "length ?b < length ?a"
    | (same) "length ?a = length ?b" by linarith
  then show ?thesis
  proof cases
    case shorter
    with shorter_numeral_smaller[OF assms] show ?thesis
      by (simp add: compare_digits_def compare_nat_def)
  next
    case longer
    with shorter_numeral_smaller[OF assms(2) assms(1)] show ?thesis
      by (simp add: compare_digits_def compare_nat_def)
  next
    case same
    from same_length_numerals[OF same significant_digits[OF assms(1)]
        significant_digits[OF assms(2)]]
    show ?thesis using same
      by (cases "compare_text ?a ?b")
         (auto simp: compare_digits_def compare_nat_def significant_value[symmetric, of d1]
            significant_value[symmetric, of d2] simp del: significant_value)
  qed
qed

lemma utf8_units_not_Nil: "utf8_units s = Some u \<Longrightarrow> s \<noteq> [] \<Longrightarrow> u \<noteq> []"
  by (cases s) (auto simp: Let_def split: if_splits list.splits)

subsection \<open>Numeric order\<close>

text \<open>
  On the reference platform \<open>cmp\<close> puts "file2" before "file10", and when two ASCII names
  agree up to a digit run, the name whose run writes the smaller number comes first,
  whatever the digits are as characters.
\<close>

lemma cmp_numeric_aware:
  "cmp (reference_CF loc) (entry (bytes_of ''file2'')) (entry (bytes_of ''file10'')) = Inr (- 1)
   \<and> (splits_at_run (fts_name l) p d1 s1 \<and> splits_at_run (fts_name r) p d2 s2
        \<and> digit_value (units_of d1) < digit_value (units_of d2)
      \<longrightarrow> cmp (reference_CF loc) l r = Inr (- 1))
   \<and> (splits_at_run (fts_name l) p d1 s1 \<and> splits_at_run (fts_name r) p d2 s2
        \<and> digit_value (units_of d2) < digit_value (units_of d1)
      \<longrightarrow> cmp (reference_CF loc) l r = Inr 1)"
proof -
  have ex: "cmp (reference_CF loc) (entry (bytes_of ''file2'')) (entry (bytes_of ''file10''))
              = Inr (- 1)"
    by (simp add: cmp_reference_ascii ascii_name_def entry_def bytes_of_def units_of_def
        split_runs_def is_digit_def compare_digits_def significant_def compare_nat_def)
  have gen: "(digit_value (units_of d1) < digit_value (units_of d2)
                \<longrightarrow> cmp (reference_CF loc) l r = Inr (- 1))
           \<and> (digit_value (units_of d2) < digit_value (units_of d1)
                \<longrightarrow> cmp (reference_CF loc) l r = Inr 1)"
    if l: "splits_at_run (fts_name l) p d1 s1" and r: "splits_at_run (fts_name r) p d2 s2"
  proof -
    have ds: "list_all is_digit (units_of d1)" "list_all is_digit (units_of d2)"
      using l r by (simp_all add: splits_at_run_def digit_run_def)
    from compare_digits_by_value[OF ds] cmp_embedded_runs[OF l r, of loc]
    show ?thesis by auto
  qed
  from ex gen show ?thesis by blast
qed

subsection \<open>The empty name\<close>

text \<open>
  C8, as the code has it. On the reference platform the empty name compares equal to the
  empty name, and before every non-empty name that is well-formed UTF-8.
\<close>

theorem cmp_empty_name:
  "(c_str (fts_name l) = [] \<and> c_str (fts_name r) = []
      \<longrightarrow> cmp (reference_CF loc) l r = Inr 0)
   \<and> (c_str (fts_name l) = [] \<and> c_str (fts_name r) \<noteq> []
        \<and> utf8_units (c_str (fts_name r)) = Some u
      \<longrightarrow> cmp (reference_CF loc) l r = Inr (- 1))"
proof (intro conjI impI)
  assume "c_str (fts_name l) = [] \<and> c_str (fts_name r) = []"
  then show "cmp (reference_CF loc) l r = Inr 0"
    by (simp add: cmp_unfold reference_CF_def decode_name_def strlen_def
        natural_compare_cmp_options split_runs_def)
next
  assume a: "c_str (fts_name l) = [] \<and> c_str (fts_name r) \<noteq> []
        \<and> utf8_units (c_str (fts_name r)) = Some u"
  then have "u \<noteq> []" using utf8_units_not_Nil by blast
  then have "split_runs (map fold_width u) \<noteq> []" by (simp add: split_runs_not_Nil)
  then obtain x xs where "split_runs (map fold_width u) = x # xs"
    by (cases "split_runs (map fold_width u)") auto
  with a show "cmp (reference_CF loc) l r = Inr (- 1)"
    by (simp add: cmp_unfold reference_CF_def decode_name_def strlen_def
        natural_compare_cmp_options split_runs_def)
qed

theorem cmp_empty_name_witness:
  "c_str (fts_name (entry [])) = []
   \<and> cmp (reference_CF ''C'') (entry []) (entry []) = Inr 0
   \<and> c_str (fts_name (entry [0xE3, 0x81, 0x82])) \<noteq> []
   \<and> utf8_units (c_str (fts_name (entry [0xE3, 0x81, 0x82]))) = Some [0x3042]
   \<and> cmp (reference_CF ''C'') (entry []) (entry [0xE3, 0x81, 0x82]) = Inr (- 1)"
proof -
  have e: "c_str (fts_name (entry [])) = []" by (simp add: entry_def c_str_def)
  have n: "c_str (fts_name (entry [0xE3, 0x81, 0x82])) \<noteq> []"
    by (simp add: entry_def c_str_def)
  have u: "utf8_units (c_str (fts_name (entry [0xE3, 0x81, 0x82]))) = Some [0x3042]"
    by (simp add: entry_def c_str_def cont_def cbits_def)
  from cmp_empty_name[where l = "entry []" and r = "entry []" and loc = "''C''"]
    cmp_empty_name[where l = "entry []" and r = "entry [0xE3, 0x81, 0x82]" and loc = "''C''"
      and u = "[0x3042]"]
    e n u show ?thesis by simp
qed

text \<open>C8 as stated fails: a non-empty name that is not UTF-8 does not come after the empty
  name; \<open>cmp\<close> fails on the NULL reference.\<close>

theorem cmp_empty_name_counterexample:
  "cmp (reference_CF ''C'') (entry []) (entry [0xFF]) = Inl NullReference"
  by (simp add: cmp_unfold reference_CF_def entry_def c_str_def decode_name_def)

subsection \<open>Long digit runs\<close>


lemma ascii_name_append: "ascii_name (a @ b) = (ascii_name a \<and> ascii_name b)"
  by (simp add: ascii_name_def)









end
